theory Spec2Isabelle
  imports Main
begin

section \<open>JavaScript values\<close>

text \<open>
  The payloads, errors and thrown values that travel through the bridge are JSON-like
  values. Numbers are kept as integers: the router only ever tests a number for
  truthiness. An object is the list of its readable data properties in insertion order;
  an \<open>Error\<close> instance is an object with the properties \<open>name\<close> and \<open>message\<close>
  next to its own fields (the host-specific \<open>stack\<close> is left out).
\<close>

datatype jsval =
    JUndefined
  | JNull
  | JBool bool
  | JNum int
  | JStr string
  | JArr "jsval list"
  | JObj "(string \<times> jsval) list"

type_synonym props = "(string \<times> jsval) list"

text \<open>The test \<open>if (v)\<close>.\<close>

fun truthy :: "jsval \<Rightarrow> bool" where
  "truthy JUndefined = False"
| "truthy JNull = False"
| "truthy (JBool b) = b"
| "truthy (JNum n) = (n \<noteq> 0)"
| "truthy (JStr s) = (s \<noteq> [])"
| "truthy (JArr xs) = True"
| "truthy (JObj ps) = True"

definition digit_char :: "nat \<Rightarrow> char" where
  "digit_char d = char_of (48 + d)"

fun show_nat :: "nat \<Rightarrow> string" where
  "show_nat n = (if n < 10 then [digit_char n] else show_nat (n div 10) @ [digit_char (n mod 10)])"

text \<open>
  The enumerable properties of a value, as \<open>for (const prop in v)\<close> visits them, each
  with the value \<open>v[prop]\<close>: the properties of an object, the indices of an array or of
  a string, nothing for the other primitives.
\<close>

fun entries :: "jsval \<Rightarrow> props" where
  "entries (JObj ps) = ps"
| "entries (JArr xs) = zip (map show_nat [0..<length xs]) xs"
| "entries (JStr s) = zip (map show_nat [0..<length s]) (map (\<lambda>c. JStr [c]) s)"
| "entries JUndefined = []"
| "entries JNull = []"
| "entries (JBool b) = []"
| "entries (JNum n) = []"

definition for_in_keys :: "jsval \<Rightarrow> string list" where
  "for_in_keys v = map fst (entries v)"

text \<open>The read \<open>v[k]\<close>: \<open>undefined\<close> when \<open>v\<close> has no such property.\<close>

definition get_prop :: "jsval \<Rightarrow> string \<Rightarrow> jsval" where
  "get_prop v k = (case map_of (entries v) k of Some x \<Rightarrow> x | None \<Rightarrow> JUndefined)"

text \<open>The write \<open>o[k] = v\<close> on an ordinary object.\<close>

fun set_prop :: "props \<Rightarrow> string \<Rightarrow> jsval \<Rightarrow> props" where
  "set_prop [] k v = [(k, v)]"
| "set_prop ((k', v') # ps) k v =
     (if k' = k then (k, v) # ps else (k', v') # set_prop ps k v)"

text \<open>
  An object built by a constructor of the host: its readable properties, and the
  properties whose assignment is not an ordinary write (a read-only property, whose
  assignment throws in strict mode, or one with a setter, such as \<open>__proto__\<close>). Such a
  property comes with what its assignment does: it throws, or it leaves the object with
  other readable properties.
\<close>

type_synonym setter = "jsval \<Rightarrow> props \<Rightarrow> jsval + props"

record host_object =
  readable :: props
  exotic :: "string \<rightharpoonup> setter"

text \<open>The assignment \<open>obj[k] = v\<close> on an instance; \<open>Inl e\<close>: it throws \<open>e\<close>.\<close>

definition assign :: "host_object \<Rightarrow> string \<Rightarrow> jsval \<Rightarrow> jsval + host_object" where
  "assign obj k v =
     (case exotic obj k of
        None \<Rightarrow> Inr (obj\<lparr>readable := set_prop (readable obj) k v\<rparr>)
      | Some f \<Rightarrow>
          (case f v (readable obj) of
             Inl e \<Rightarrow> Inl e
           | Inr ps \<Rightarrow> Inr (obj\<lparr>readable := ps\<rparr>)))"

text \<open>
  The loop \<open>for (const prop in src) obj[prop] = src[prop]\<close> over the keys still to
  visit; it ends at the first assignment that throws.
\<close>

fun copy_props :: "jsval \<Rightarrow> string list \<Rightarrow> host_object \<Rightarrow> jsval + host_object" where
  "copy_props src [] obj = Inr obj"
| "copy_props src (prop # rest) obj =
     (case assign obj prop (get_prop src prop) of
        Inl e \<Rightarrow> Inl e
      | Inr obj' \<Rightarrow> copy_props src rest obj')"

text \<open>
  The properties of \<open>new Error(message)\<close>: the name is \<open>Error\<close>, the message is the
  argument turned into a string (empty when the argument is \<open>undefined\<close>). The host's
  string conversion of a value that is not a string is a parameter.
\<close>

definition Error_new :: "(jsval \<Rightarrow> string) \<Rightarrow> jsval \<Rightarrow> props" where
  "Error_new ToString message =
     [(''name'', JStr ''Error''),
      (''message'', JStr (case message of JUndefined \<Rightarrow> [] | JStr m \<Rightarrow> m | v \<Rightarrow> ToString v))]"

section \<open>Error Codec\<close>

text \<open>
  Modelled from the spec: \<open>serializeError\<close> comes from the package \<open>serialize-error\<close>,
  which is not part of the sources. The spec has it "convert a thrown error into a plain
  structured record preserving at least name and message and all own enumerable fields":
  the record holds every property of the thrown object with its value. A thrown value
  that is not an object is passed through as it is.
\<close>

fun serializeError :: "jsval \<Rightarrow> jsval" where
  "serializeError (JObj ps) = JObj (map (\<lambda>k. (k, get_prop (JObj ps) k)) (for_in_keys (JObj ps)))"
| "serializeError v = v"

section \<open>Endpoints\<close>

text \<open>
  The values of \<open>tabId\<close>: \<open>NaN\<close>, \<open>null\<close>, a whole number that a double holds
  exactly, or the double that the host's conversion gives for a longer string of digits.
\<close>

datatype tab_id = NaN | Null | TabId nat | Rounded string

record endpoint =
  "context" :: "string option"
  tabId :: tab_id

definition is_digit :: "char \<Rightarrow> bool" where
  "is_digit c = (48 \<le> (of_char c :: nat) \<and> (of_char c :: nat) \<le> 57)"

text \<open>The tail \<open>(?:@(\d+))?$\<close> of the pattern against the rest of the input.\<close>

fun match_instance :: "string \<Rightarrow> string option option" where
  "match_instance [] = Some None"
| "match_instance (c # ds) =
     (if c = CHR ''@'' \<and> ds \<noteq> [] \<and> list_all is_digit ds then Some (Some ds) else None)"

fun strip_prefix :: "string \<Rightarrow> string \<Rightarrow> string option" where
  "strip_prefix [] ys = Some ys"
| "strip_prefix (x # xs) [] = None"
| "strip_prefix (x # xs) (y # ys) = (if x = y then strip_prefix xs ys else None)"

text \<open>The alternatives after \<open>background$\<close>, tried from left to right.\<close>

definition context_names :: "string list" where
  "context_names = [''devtools'', ''popup'', ''options'', ''content-script'', ''window'']"

fun match_alternatives :: "string list \<Rightarrow> string \<Rightarrow> (string \<times> string option) option" where
  "match_alternatives [] endpoint = None"
| "match_alternatives (n # ns) endpoint =
     (case strip_prefix n endpoint of
        None \<Rightarrow> match_alternatives ns endpoint
      | Some rest \<Rightarrow>
          (case match_instance rest of
             None \<Rightarrow> match_alternatives ns endpoint
           | Some g \<Rightarrow> Some (n, g)))"

text \<open>
  \<open>endpoint.match(ENDPOINT_RE)\<close>: the two capture groups of a match. The first
  alternative \<open>background$\<close> only matches the whole input \<open>background\<close>.
\<close>

definition ENDPOINT_RE :: "string \<Rightarrow> (string \<times> string option) option" where
  "ENDPOINT_RE endpoint =
     (if endpoint = ''background'' then Some (''background'', None)
      else match_alternatives context_names endpoint)"

definition decimal :: "string \<Rightarrow> nat" where
  "decimal ds = foldl (\<lambda>n c. 10 * n + (of_char c - 48)) 0 ds"

text \<open>
  The unary plus on a capture group: \<open>+undefined\<close> is \<open>NaN\<close>; a string of digits is
  its number as long as that is at most \<open>2^53\<close>, where every whole number is a double.
  Beyond that the conversion rounds to a double near the number, or gives \<open>Infinity\<close>;
  that double is not computed here and is kept as the digits it was read from.
\<close>

definition to_number :: "string option \<Rightarrow> tab_id" where
  "to_number g =
     (case g of
        None \<Rightarrow> NaN
      | Some ds \<Rightarrow>
          (if decimal ds \<le> 9007199254740992 then TabId (decimal ds) else Rounded ds))"

definition parseEndpoint :: "string \<Rightarrow> endpoint" where
  "parseEndpoint endpoint =
     (case ENDPOINT_RE endpoint of
        None \<Rightarrow> \<lparr>context = None, tabId = to_number None\<rparr>
      | Some (ctx, tab) \<Rightarrow> \<lparr>context = Some ctx, tabId = to_number tab\<rparr>)"

definition isInternalEndpoint :: "endpoint \<Rightarrow> bool" where
  "isInternalEndpoint e =
     (case context e of
        None \<Rightarrow> False
      | Some ctx \<Rightarrow> ctx \<in> set [''content-script'', ''background'', ''devtools''])"

section \<open>Envelopes and the state of one context\<close>

datatype message_type = Message | Reply

record internal_message =
  transactionId :: string
  messageID :: string
  messageType :: message_type
  origin :: endpoint
  destination :: "endpoint option"
  data :: jsval
  err :: jsval
  hops :: "string list"
  timestamp :: int

text \<open>
  What a registered handler is called with, and how its call ends. A handler is a
  function of the message it is given; it does not touch the state of the router.
\<close>

record bridge_message =
  sender :: endpoint
  id_bm :: string
  data_bm :: jsval
  timestamp_bm :: int

datatype handler_result = Returns jsval | Throws jsval

type_synonym OnMessageCallback = "bridge_message \<Rightarrow> handler_result"

text \<open>
  The effects of the module are kept as logs: the calls of \<open>resolve\<close> and \<open>reject\<close>
  on pending transactions (a transaction's continuation pair is a number), the calls of
  \<open>win.postMessage\<close>, and the message channels opened by the forwarder, each with the
  envelope its callbacks hold, whether its retry timer is still pending and whether
  \<open>port1.onmessage\<close> is still attached. A channel is named by its position.

  The host is part of the state. \<open>self\<close> is the read \<open>self[key]\<close> of the global
  object: \<open>Inl e\<close> when the read throws \<open>e\<close>, \<open>Inr None\<close> when what it finds is not a
  function, \<open>Inr (Some ctr)\<close> when it is one, and then \<open>ctr m\<close> is \<open>new self[key](m)\<close>,
  which throws (\<open>Inl\<close>: a function that is not a constructor, or one that rejects
  its argument) or builds an instance. \<open>ToString v\<close> is the string of a value, and
  \<open>unprintable v = Some e\<close> says that converting \<open>v\<close> to a string throws \<open>e\<close> instead.
  \<open>setters\<close> are the accessor properties that every ordinary object inherits.
\<close>

datatype settlement = Resolve nat jsval | Reject nat jsval

record window_message =
  cmd :: string
  scope :: jsval
  context_wm :: string
  payload :: "internal_message option"
  ports :: "nat list"

record attempt =
  msg :: internal_message
  retry :: bool
  onmessage :: bool

record bridge =
  runtimeId :: string
  openTransactions :: "string \<rightharpoonup> nat"
  onMessageListeners :: "string \<rightharpoonup> OnMessageCallback"
  namespace :: jsval
  self :: "jsval \<Rightarrow> jsval + (jsval \<Rightarrow> jsval + host_object) option"
  ToString :: "jsval \<Rightarrow> string"
  unprintable :: "jsval \<Rightarrow> jsval option"
  setters :: "string \<rightharpoonup> setter"
  settled :: "settlement list"
  posted :: "window_message list"
  channels :: "attempt list"

text \<open>
  How a call ends: it returns (an asynchronous function: its promise is fulfilled), it
  throws synchronously, or the promise it returned is rejected.
\<close>

datatype completion = Done | Thrown jsval | Rejected jsval

definition currentContext :: string where
  "currentContext = ''window''"

section \<open>Handshake/Retry Forwarder\<close>

definition namespace_message :: string where
  \<open>namespace_message =
     ''webext-bridge uses window.postMessage to talk with other "window"(s), for message routing and stuff,''
     @ ''which is global/conflicting operation in case there are other scripts using webext-bridge. ''
     @ ''Call Bridge#setNamespace(nsps) to isolate your app. Example: setNamespace('' @ [CHR 0x27]
     @ ''com.facebook.react-devtools'' @ [CHR 0x27] @ ''). ''
     @ ''Make sure to use same namespace across all your scripts whereever window.postMessage is likely to be used`''\<close>

definition setNamespace :: "string \<Rightarrow> bridge \<Rightarrow> bridge" where
  "setNamespace nsps s = s\<lparr>namespace := JStr nsps\<rparr>"

text \<open>\<open>Some e\<close>: the call throws \<open>e\<close>.\<close>

definition ensureNamespaceSet :: "bridge \<Rightarrow> jsval option" where
  "ensureNamespaceSet s =
     (if (case namespace s of JStr n \<Rightarrow> length n = 0 | _ \<Rightarrow> True)
      then Some (JObj (Error_new (ToString s) (JStr namespace_message)))
      else None)"

text \<open>There is one window, so the parameter \<open>win\<close> is left out.\<close>

definition routeMessageThroughWindow :: "bridge \<Rightarrow> internal_message \<Rightarrow> completion \<times> bridge" where
  "routeMessageThroughWindow s m =
     (case ensureNamespaceSet s of
        Some e \<Rightarrow> (Thrown e, s)
      | None \<Rightarrow>
          (Done,
           s\<lparr>channels := channels s @ [\<lparr>msg = m, retry = True, onmessage = True\<rparr>],
             posted := posted s @
               [\<lparr>cmd = ''__crx_bridge_verify_listening'', scope = namespace s,
                 context_wm = currentContext, payload = None,
                 ports = [length (channels s)]\<rparr>]\<rparr>))"

text \<open>
  The two callbacks of the attempt on channel \<open>c\<close>: the one given to \<open>setTimeout\<close>
  and the one stored in \<open>port1.onmessage\<close>.
\<close>

definition retry_callback :: "nat \<Rightarrow> bridge \<Rightarrow> completion \<times> bridge" where
  "retry_callback c s =
     routeMessageThroughWindow
       (s\<lparr>channels := (channels s)[c := (channels s ! c)\<lparr>retry := False, onmessage := False\<rparr>]\<rparr>)
       (msg (channels s ! c))"

definition onmessage_callback :: "nat \<Rightarrow> bridge \<Rightarrow> bridge" where
  "onmessage_callback c s =
     s\<lparr>channels := (channels s)[c := (channels s ! c)\<lparr>retry := False\<rparr>],
       posted := posted s @
         [\<lparr>cmd = ''__crx_bridge_route_message'', scope = namespace s,
           context_wm = currentContext, payload = Some (msg (channels s ! c)),
           ports = []\<rparr>]\<rparr>"

text \<open>
  The event loop: the timer of channel \<open>c\<close> fires (only a pending timer can), or a
  message arrives on \<open>port1\<close> of channel \<open>c\<close> (dropped when no callback is attached).
  An error thrown by a timer callback is not caught by anyone; the state it leaves stays.
\<close>

datatype event = Timeout nat | PortMessage nat

fun deliver :: "event \<Rightarrow> bridge \<Rightarrow> bridge" where
  "deliver (Timeout c) s =
     (if c < length (channels s) \<and> retry (channels s ! c) then snd (retry_callback c s) else s)"
| "deliver (PortMessage c) s =
     (if c < length (channels s) \<and> onmessage (channels s ! c) then onmessage_callback c s else s)"

definition run :: "event list \<Rightarrow> bridge \<Rightarrow> bridge" where
  "run evs s = fold deliver evs s"

section \<open>Router and dispatch\<close>

text \<open>
  \<open>new Error(message)\<close> as an instance: the conversion of a message that is neither a
  string nor \<open>undefined\<close> can throw.
\<close>

definition new_Error :: "bridge \<Rightarrow> jsval \<Rightarrow> jsval + host_object" where
  "new_Error s message =
     (case (case message of JUndefined \<Rightarrow> None | JStr m \<Rightarrow> None | v \<Rightarrow> unprintable s v) of
        Some e \<Rightarrow> Inl e
      | None \<Rightarrow> Inr \<lparr>readable = Error_new (ToString s) message, exotic = setters s\<rparr>)"

text \<open>
  The deserializer inside \<open>handleReply\<close>: the constructor found under the name of the
  record in the global object, or else the generic \<open>Error\<close>, is called with the
  message, and every property of the record is assigned onto the instance. \<open>Inl e\<close>:
  the lookup, the construction or an assignment throws \<open>e\<close>.
\<close>

definition hydrate :: "bridge \<Rightarrow> jsval \<Rightarrow> jsval + jsval" where
  "hydrate s dehydratedErr =
     (case self s (get_prop dehydratedErr ''name'') of
        Inl e \<Rightarrow> Inl e
      | Inr errCtr \<Rightarrow>
          (case (case errCtr of Some ctr \<Rightarrow> ctr | None \<Rightarrow> new_Error s)
                  (get_prop dehydratedErr ''message'') of
             Inl e \<Rightarrow> Inl e
           | Inr hydratedErr \<Rightarrow>
               (case copy_props dehydratedErr (for_in_keys dehydratedErr) hydratedErr of
                  Inl e \<Rightarrow> Inl e
                | Inr obj \<Rightarrow> Inr (JObj (readable obj)))))"

text \<open>
  \<open>handleReply\<close> is a plain function: when the deserializer throws, it throws before
  the transaction is rejected and before its entry is deleted.
\<close>

definition handleReply :: "bridge \<Rightarrow> internal_message \<Rightarrow> completion \<times> bridge" where
  "handleReply s message =
     (case openTransactions s (transactionId message) of
        None \<Rightarrow> (Done, s)
      | Some transactionP \<Rightarrow>
          (if truthy (err message)
           then
             (case hydrate s (err message) of
                Inl e \<Rightarrow> (Thrown e, s)
              | Inr hydratedErr \<Rightarrow>
                  (Done,
                   s\<lparr>settled := settled s @ [Reject transactionP hydratedErr],
                     openTransactions := (openTransactions s)(transactionId message := None)\<rparr>))
           else
             (Done,
              s\<lparr>settled := settled s @ [Resolve transactionP (data message)],
                openTransactions := (openTransactions s)(transactionId message := None)\<rparr>)))"

definition no_handler_message :: "string \<Rightarrow> string" where
  "no_handler_message mid =
     ''[webext-bridge] No handler registered in '' @ [CHR 0x27] @ currentContext @ [CHR 0x27]
     @ '' to accept messages with id '' @ [CHR 0x27] @ mid @ [CHR 0x27]"

text \<open>
  The \<open>try\<close> and \<open>catch\<close> blocks of \<open>handleNewMessage\<close>: the values of \<open>reply\<close>,
  \<open>err\<close> and \<open>noHandlerFoundError\<close> when the \<open>finally\<close> block starts. Awaiting the
  handler is one step here.
\<close>

definition try_listener :: "bridge \<Rightarrow> internal_message \<Rightarrow> jsval \<times> jsval \<times> bool" where
  "try_listener s message =
     (case onMessageListeners s (messageID message) of
        Some cb \<Rightarrow>
          (case cb \<lparr>sender = origin message, id_bm = messageID message,
                    data_bm = data message, timestamp_bm = timestamp message\<rparr> of
             Returns v \<Rightarrow> (v, JUndefined, False)
           | Throws e \<Rightarrow> (JUndefined, e, False))
      | None \<Rightarrow>
          (JUndefined,
           JObj (Error_new (ToString s) (JStr (no_handler_message (messageID message)))),
           True))"

text \<open>The truthiness of \<open>destination.context\<close>.\<close>

definition truthy_context :: "string option \<Rightarrow> bool" where
  "truthy_context c = (case c of None \<Rightarrow> False | Some n \<Rightarrow> n \<noteq> [])"

text \<open>
  Every function gives back how it ended, the state, and the envelope it was given as
  it is afterwards: \<open>routeMessage\<close> pushes onto \<open>hops\<close> and \<open>handleNewMessage\<close> sets
  \<open>err\<close> on the object the caller holds. The three functions call each other; the
  recursion ends because the reply that \<open>handleNewMessage\<close> routes has a destination,
  so it is forwarded and never dispatched here. \<open>handleInboundMessage\<close> is asynchronous:
  what \<open>handleReply\<close> throws rejects its promise. A promise that \<open>routeMessage\<close> returns
  to \<open>handleNewMessage\<close> is not awaited; only a synchronous throw leaves the
  \<open>finally\<close> block.
\<close>

function routeMessage :: "bridge \<Rightarrow> internal_message \<Rightarrow> completion \<times> bridge \<times> internal_message"
  and handleInboundMessage :: "bridge \<Rightarrow> internal_message \<Rightarrow> completion \<times> bridge \<times> internal_message"
  and handleNewMessage :: "bridge \<Rightarrow> internal_message \<Rightarrow> completion \<times> bridge \<times> internal_message"
where
  "routeMessage s message =
     (if runtimeId s \<in> set (hops message) then (Done, s, message)
      else
        (case destination message of
           None \<Rightarrow> handleInboundMessage s (message\<lparr>hops := hops message @ [runtimeId s]\<rparr>)
         | Some d \<Rightarrow>
             (if truthy_context (context d)
              then
                (case routeMessageThroughWindow s (message\<lparr>hops := hops message @ [runtimeId s]\<rparr>) of
                   (c, s') \<Rightarrow> (c, s', message\<lparr>hops := hops message @ [runtimeId s]\<rparr>))
              else (Done, s, message\<lparr>hops := hops message @ [runtimeId s]\<rparr>))))"
| "handleInboundMessage s message =
     (case messageType message of
        Reply \<Rightarrow>
          (case handleReply s message of
             (Thrown e, s') \<Rightarrow> (Rejected e, s', message)
           | (c, s') \<Rightarrow> (c, s', message))
      | Message \<Rightarrow> handleNewMessage s message)"
| "handleNewMessage s message =
     (case try_listener s message of
        (reply, error, noHandlerFoundError) \<Rightarrow>
          (case routeMessage s
                  \<lparr>transactionId = transactionId message,
                    messageID = messageID message,
                    messageType = Reply,
                    origin = \<lparr>context = Some currentContext, tabId = Null\<rparr>,
                    destination = Some (origin message),
                    data = reply,
                    err = (if truthy error then serializeError error else err message),
                    hops = [],
                    timestamp = timestamp message\<rparr> of
             (Thrown x, s', r) \<Rightarrow>
               (Rejected x, s', if truthy error then message\<lparr>err := serializeError error\<rparr> else message)
           | (c, s', r) \<Rightarrow>
               (if truthy error \<and> \<not> noHandlerFoundError then Rejected reply else Done,
                s', if truthy error then message\<lparr>err := serializeError error\<rparr> else message)))"
  by pat_completeness auto
termination
  by (relation "measure (\<lambda>x. case x of
          Inl (s, m) \<Rightarrow> (if destination m = None then 3 else 0)
        | Inr (Inl (s, m)) \<Rightarrow> 2
        | Inr (Inr (s, m)) \<Rightarrow> 1)") auto

section \<open>Observations\<close>

text \<open>The namespace is a non-empty string.\<close>

definition namespace_set :: "bridge \<Rightarrow> bool" where
  "namespace_set s = (case namespace s of JStr n \<Rightarrow> n \<noteq> [] | _ \<Rightarrow> False)"


text \<open>How often the envelope \<open>m\<close> has been broadcast on the relay so far.\<close>

definition deliveries :: "internal_message \<Rightarrow> bridge \<Rightarrow> nat" where
  "deliveries m s =
     length (filter (\<lambda>w. cmd w = ''__crx_bridge_route_message'' \<and> payload w = Some m) (posted s))"

text \<open>
  Some acknowledgment of the run arrives on a channel whose retry timer is still pending,
  that is, before the timeout of its attempt.
\<close>

fun answered :: "event list \<Rightarrow> bridge \<Rightarrow> bool" where
  "answered [] s = False"
| "answered (Timeout c # evs) s = answered evs (deliver (Timeout c) s)"
| "answered (PortMessage c # evs) s =
     ((c < length (channels s) \<and> retry (channels s ! c) \<and> onmessage (channels s ! c))
      \<or> answered evs (deliver (PortMessage c) s))"


text \<open>The channels on which the acknowledgments of a run arrive, in order.\<close>

fun acks :: "event list \<Rightarrow> nat list" where
  "acks [] = []"
| "acks (Timeout c # evs) = acks evs"
| "acks (PortMessage c # evs) = c # acks evs"

text \<open>
  How many further acknowledgments the run brings on the channel of the first
  acknowledgment that finds its callback attached.
\<close>

fun repeats :: "event list \<Rightarrow> bridge \<Rightarrow> nat" where
  "repeats [] s = 0"
| "repeats (Timeout c # evs) s = repeats evs (deliver (Timeout c) s)"
| "repeats (PortMessage c # evs) s =
     (if c < length (channels s) \<and> onmessage (channels s ! c)
      then count_list (acks evs) c
      else repeats evs (deliver (PortMessage c) s))"

fun channel_of :: "event \<Rightarrow> nat" where
  "channel_of (Timeout c) = c"
| "channel_of (PortMessage c) = c"

text \<open>
  The two phases of one forwarding, over the channels from \<open>n0\<close> on. While it waits, its
  newest attempt is armed and every older one is detached with its timer spent. Once the
  envelope is out, no timer is pending and only channel \<open>k\<close> still has its callback.
\<close>

definition waiting :: "nat \<Rightarrow> internal_message \<Rightarrow> bridge \<Rightarrow> bool" where
  "waiting n0 m t =
     (namespace_set t \<and> n0 < length (channels t) \<and>
      channels t ! (length (channels t) - 1) = \<lparr>msg = m, retry = True, onmessage = True\<rparr> \<and>
      (\<forall>i. n0 \<le> i \<and> i < length (channels t) - 1 \<longrightarrow>
         \<not> retry (channels t ! i) \<and> \<not> onmessage (channels t ! i)))"

definition delivered :: "nat \<Rightarrow> nat \<Rightarrow> bridge \<Rightarrow> bool" where
  "delivered n0 k t =
     (\<forall>i. n0 \<le> i \<and> i < length (channels t) \<longrightarrow>
        \<not> retry (channels t ! i) \<and> (i \<noteq> k \<longrightarrow> \<not> onmessage (channels t ! i)))"

section \<open>A concrete context\<close>

definition example_error :: jsval where
  "example_error =
     JObj [(''name'', JStr ''TypeError''), (''message'', JStr ''boom''), (''code'', JNum 7)]"

text \<open>
  A global object with \<open>TypeError\<close>, a constructor, and \<open>Symbol\<close>, a function that
  throws when it is called with \<open>new\<close>.
\<close>

definition not_a_constructor :: jsval where
  "not_a_constructor =
     JObj [(''name'', JStr ''TypeError''), (''message'', JStr ''Symbol is not a constructor'')]"

definition example_self :: "jsval \<Rightarrow> jsval + (jsval \<Rightarrow> jsval + host_object) option" where
  "example_self key =
     (if key = JStr ''TypeError''
      then Inr (Some (\<lambda>m. Inr \<lparr>readable = [(''name'', JStr ''TypeError''), (''message'', m)],
                                 exotic = Map.empty\<rparr>))
      else if key = JStr ''Symbol''
      then Inr (Some (\<lambda>m. Inl not_a_constructor))
      else Inr None)"


definition example_bridge :: bridge where
  "example_bridge =
     \<lparr>runtimeId = ''rt-1'',
      openTransactions = [''tx-1'' \<mapsto> 0],
      onMessageListeners =
        [''ping'' \<mapsto> (\<lambda>b. Returns (JObj [(''n'', JNum 2)])),
         ''fail'' \<mapsto> (\<lambda>b. Throws example_error)],
      namespace = JStr ''app'',
      self = example_self,
      ToString = (\<lambda>v. []),
      unprintable = (\<lambda>v. None),
      setters = Map.empty,
      settled = [],
      posted = [],
      channels = []\<rparr>"

definition example_request :: "string \<Rightarrow> internal_message" where
  "example_request mid =
     \<lparr>transactionId = ''tx-9'',
      messageID = mid,
      messageType = Message,
      origin = \<lparr>context = Some ''content-script'', tabId = TabId 7\<rparr>,
      destination = None,
      data = JObj [(''n'', JNum 1)],
      err = JUndefined,
      hops = [''rt-0''],
      timestamp = 1000\<rparr>"

definition example_reply :: "string \<Rightarrow> jsval \<Rightarrow> internal_message" where
  "example_reply tid e =
     \<lparr>transactionId = tid,
      messageID = ''ping'',
      messageType = Reply,
      origin = \<lparr>context = Some ''content-script'', tabId = TabId 7\<rparr>,
      destination = None,
      data = JObj [(''n'', JNum 2)],
      err = e,
      hops = [''rt-0''],
      timestamp = 1000\<rparr>"

section \<open>Error Codec: the round trip\<close>





text \<open>An assignment that throws ends the deserializer with what was thrown.\<close>

lemma hydrate_assignment_throws:
  assumes "self s (get_prop r ''name'') = Inr errCtr"
    and "(case errCtr of Some ctr \<Rightarrow> ctr | None \<Rightarrow> new_Error s) (get_prop r ''message'') = Inr obj"
    and "for_in_keys r = k # ks"
    and "exotic obj k = Some f"
    and "f (get_prop r k) (readable obj) = Inl e"
  shows "hydrate s r = Inl e"
  using assms by (simp add: hydrate_def assign_def)








section \<open>Parsing endpoints\<close>

text \<open>
  What the model of the pattern matches: \<open>background\<close> alone, or one of the other
  context names, alone or followed by \<open>@\<close> and at least one digit.
\<close>

lemma strip_prefix_Some: "strip_prefix n e = Some rest \<longleftrightarrow> e = n @ rest"
proof (induction n e rule: strip_prefix.induct)
  case (1 ys)
  then show ?case by auto
next
  case (2 x xs)
  then show ?case by auto
next
  case (3 x xs y ys)
  then show ?case by auto
qed

lemma match_instance_Some:
  "match_instance rest = Some g \<longleftrightarrow>
     (rest = [] \<and> g = None) \<or>
     (\<exists>ds. rest = CHR ''@'' # ds \<and> ds \<noteq> [] \<and> list_all is_digit ds \<and> g = Some ds)"
  by (cases rest) auto

lemma match_alternatives_Some:
  "match_alternatives ns e = Some (n, g) \<Longrightarrow>
     n \<in> set ns \<and> (\<exists>rest. e = n @ rest \<and> match_instance rest = Some g)"
  by (induction ns) (auto split: option.splits simp: strip_prefix_Some)

lemma ENDPOINT_RE_Some:
  assumes "ENDPOINT_RE e = Some (n, g)"
  shows "(e = ''background'' \<and> n = ''background'' \<and> g = None)
       \<or> (n \<in> set context_names \<and>
           (e = n \<and> g = None
            \<or> (\<exists>ds. e = n @ CHR ''@'' # ds \<and> ds \<noteq> [] \<and> list_all is_digit ds \<and> g = Some ds)))"
proof (cases "e = ''background''")
  case True
  with assms show ?thesis by (simp add: ENDPOINT_RE_def)
next
  case False
  with assms have "match_alternatives context_names e = Some (n, g)"
    by (simp add: ENDPOINT_RE_def)
  from match_alternatives_Some [OF this] obtain rest where "n \<in> set context_names"
    and "e = n @ rest" and "match_instance rest = Some g"
    by blast
  then show ?thesis by (auto simp: match_instance_Some)
qed

lemma ENDPOINT_RE_complete:
  assumes "n \<in> set context_names" and "match_instance rest = Some g"
  shows "ENDPOINT_RE (n @ rest) = Some (n, g)"
  using assms
  by (auto simp: ENDPOINT_RE_def context_names_def)

lemma ENDPOINT_RE_None_iff:
  "ENDPOINT_RE e = None \<longleftrightarrow>
     e \<noteq> ''background'' \<and>
     (\<forall>n \<in> set context_names.
        e \<noteq> n \<and> (\<forall>ds. ds \<noteq> [] \<and> list_all is_digit ds \<longrightarrow> e \<noteq> n @ CHR ''@'' # ds))"
proof
  assume none: "ENDPOINT_RE e = None"
  have "e \<noteq> ''background''"
    using none by (auto simp: ENDPOINT_RE_def)
  moreover have "e \<noteq> n" if "n \<in> set context_names" for n
    using ENDPOINT_RE_complete [OF that, of "[]" None] none by auto
  moreover have "e \<noteq> n @ CHR ''@'' # ds"
    if "n \<in> set context_names" and "ds \<noteq> [] \<and> list_all is_digit ds" for n ds
    using ENDPOINT_RE_complete [OF that(1), of "CHR ''@'' # ds" "Some ds"] that(2) none by auto
  ultimately show "e \<noteq> ''background'' \<and>
     (\<forall>n \<in> set context_names.
        e \<noteq> n \<and> (\<forall>ds. ds \<noteq> [] \<and> list_all is_digit ds \<longrightarrow> e \<noteq> n @ CHR ''@'' # ds))"
    by blast
next
  assume no: "e \<noteq> ''background'' \<and>
     (\<forall>n \<in> set context_names.
        e \<noteq> n \<and> (\<forall>ds. ds \<noteq> [] \<and> list_all is_digit ds \<longrightarrow> e \<noteq> n @ CHR ''@'' # ds))"
  show "ENDPOINT_RE e = None"
  proof (cases "ENDPOINT_RE e")
    case None
    then show ?thesis .
  next
    case (Some p)
    obtain n g where "p = (n, g)" by (cases p)
    with Some ENDPOINT_RE_Some [of e n g] no show ?thesis by auto
  qed
qed

text \<open>
  C10. For a bare context name, with no \<open>@instance\<close> part, \<open>parseEndpoint\<close> gives a
  record whose \<open>tabId\<close> is \<open>NaN\<close> (the field is there, not absent); for a string the
  pattern does not match (it is neither \<open>background\<close> nor another context name, alone
  or with \<open>@\<close> and digits after it), it gives \<open>{context: undefined, tabId: NaN}\<close>.
  It has no failure case: every string has a result.
\<close>

theorem parseEndpoint_NaN:
  "(n \<in> set (''background'' # context_names) \<longrightarrow>
      parseEndpoint n = \<lparr>context = Some n, tabId = NaN\<rparr>)
   \<and> (ENDPOINT_RE e = None \<longrightarrow> parseEndpoint e = \<lparr>context = None, tabId = NaN\<rparr>)
   \<and> (e \<noteq> ''background'' \<and>
       (\<forall>n \<in> set context_names.
          e \<noteq> n \<and> (\<forall>ds. ds \<noteq> [] \<and> list_all is_digit ds \<longrightarrow> e \<noteq> n @ CHR ''@'' # ds))
       \<longrightarrow> parseEndpoint e = \<lparr>context = None, tabId = NaN\<rparr>)"
proof (intro conjI impI)
  show "parseEndpoint n = \<lparr>context = Some n, tabId = NaN\<rparr>"
    if "n \<in> set (''background'' # context_names)"
    using that by (auto simp: parseEndpoint_def ENDPOINT_RE_def context_names_def to_number_def)
  show none: "parseEndpoint e = \<lparr>context = None, tabId = NaN\<rparr>" if "ENDPOINT_RE e = None"
    using that by (simp add: parseEndpoint_def to_number_def)
  show "parseEndpoint e = \<lparr>context = None, tabId = NaN\<rparr>"
    if "e \<noteq> ''background'' \<and>
       (\<forall>n \<in> set context_names.
          e \<noteq> n \<and> (\<forall>ds. ds \<noteq> [] \<and> list_all is_digit ds \<longrightarrow> e \<noteq> n @ CHR ''@'' # ds))"
    using that by (simp only: ENDPOINT_RE_None_iff [symmetric] none)
qed

theorem parseEndpoint_NaN_witness:
  "''background'' \<in> set (''background'' # context_names)
   \<and> parseEndpoint ''background'' = \<lparr>context = Some ''background'', tabId = NaN\<rparr>
   \<and> ENDPOINT_RE ''background@12'' = None
   \<and> parseEndpoint ''background@12'' = \<lparr>context = None, tabId = NaN\<rparr>
   \<and> parseEndpoint ''popup@'' = \<lparr>context = None, tabId = NaN\<rparr>"
proof -
  have a: "''background'' \<in> set (''background'' # context_names)" by simp
  have b: "ENDPOINT_RE ''background@12'' = None"
    by (simp add: ENDPOINT_RE_def context_names_def)
  have c: "''popup@'' \<noteq> ''background'' \<and>
       (\<forall>n \<in> set context_names.
          ''popup@'' \<noteq> n \<and>
          (\<forall>ds. ds \<noteq> [] \<and> list_all is_digit ds \<longrightarrow> ''popup@'' \<noteq> n @ CHR ''@'' # ds))"
    by (auto simp: context_names_def)
  from parseEndpoint_NaN [of "''background''" "''background@12''"] a b
  have 1: "parseEndpoint ''background'' = \<lparr>context = Some ''background'', tabId = NaN\<rparr>"
    and 2: "parseEndpoint ''background@12'' = \<lparr>context = None, tabId = NaN\<rparr>"
    by blast+
  from parseEndpoint_NaN [of "''background''" "''popup@''"] c
  have 3: "parseEndpoint ''popup@'' = \<lparr>context = None, tabId = NaN\<rparr>"
    by blast
  from a b 1 2 3 show ?thesis by blast
qed

section \<open>Dispatch of replies\<close>

text \<open>
  C7. A reply whose \<open>transactionId\<close> is not in the Transaction Table is ignored: the
  dispatch ends normally, nothing is resolved or rejected and the state (both tables
  with it) is as before. Reached through \<open>routeMessage\<close>, the only trace is the hop
  pushed onto the envelope.
\<close>

theorem unknown_reply_ignored:
  assumes "messageType m = Reply" and "openTransactions s (transactionId m) = None"
  shows "handleInboundMessage s m = (Done, s, m)
       \<and> (destination m = None \<and> runtimeId s \<notin> set (hops m) \<longrightarrow>
            routeMessage s m = (Done, s, m\<lparr>hops := hops m @ [runtimeId s]\<rparr>))"
  using assms by (simp add: handleReply_def)

theorem unknown_reply_ignored_witness:
  "messageType (example_reply ''tx-2'' JUndefined) = Reply
   \<and> openTransactions example_bridge (transactionId (example_reply ''tx-2'' JUndefined)) = None
   \<and> handleInboundMessage example_bridge (example_reply ''tx-2'' JUndefined)
       = (Done, example_bridge, example_reply ''tx-2'' JUndefined)
   \<and> routeMessage example_bridge (example_reply ''tx-2'' JUndefined)
       = (Done, example_bridge, (example_reply ''tx-2'' JUndefined)\<lparr>hops := [''rt-0'', ''rt-1'']\<rparr>)"
proof -
  have a: "messageType (example_reply ''tx-2'' JUndefined) = Reply"
    by (simp add: example_reply_def)
  have b: "openTransactions example_bridge (transactionId (example_reply ''tx-2'' JUndefined)) = None"
    by (simp add: example_reply_def example_bridge_def)
  have c: "destination (example_reply ''tx-2'' JUndefined) = None
      \<and> runtimeId example_bridge \<notin> set (hops (example_reply ''tx-2'' JUndefined))"
    by (simp add: example_reply_def example_bridge_def)
  have d: "hops (example_reply ''tx-2'' JUndefined) @ [runtimeId example_bridge] = [''rt-0'', ''rt-1'']"
    by (simp add: example_reply_def example_bridge_def)
  from unknown_reply_ignored [OF a b] c d a b show ?thesis
    by (simp del: routeMessage.simps handleInboundMessage.simps)
qed

lemma serializeError_truthy: "truthy e \<Longrightarrow> truthy (serializeError e)"
  by (cases e) simp_all





section \<open>Loop prevention\<close>

lemma hops_handleNewMessage: "hops (snd (snd (handleNewMessage s m))) = hops m"
  by (simp split: prod.splits completion.splits del: routeMessage.simps)

lemma hops_handleInboundMessage: "hops (snd (snd (handleInboundMessage s m))) = hops m"
proof (cases "messageType m")
  case Message
  then show ?thesis
    using hops_handleNewMessage [of s m] by (simp del: handleNewMessage.simps)
next
  case Reply
  then show ?thesis by (simp split: prod.splits completion.splits)
qed

lemma hops_routeMessage:
  "hops (snd (snd (routeMessage s m))) =
     (if runtimeId s \<in> set (hops m) then hops m else hops m @ [runtimeId s])"
proof (cases "runtimeId s \<in> set (hops m)")
  case True
  then show ?thesis by simp
next
  case False
  show ?thesis
  proof (cases "destination m")
    case None
    with False show ?thesis
      using hops_handleInboundMessage [of s "m\<lparr>hops := hops m @ [runtimeId s]\<rparr>"]
      by (simp del: handleInboundMessage.simps)
  next
    case (Some d)
    with False show ?thesis by (simp split: prod.splits)
  qed
qed

text \<open>
  C3. Routing an envelope whose \<open>hops\<close> already holds the local runtime identity ends at
  once and changes nothing: the state (the two tables, what was settled, posted and
  opened) and the envelope are as before, so no handler ran and nothing was forwarded.
  In every other case the identity is appended once. Hence routing never takes the
  number of times the identity stands in \<open>hops\<close> above one.
\<close>

theorem visited_envelope_dropped:
  "(runtimeId s \<in> set (hops m) \<longrightarrow> routeMessage s m = (Done, s, m))
   \<and> hops (snd (snd (routeMessage s m))) =
       (if runtimeId s \<in> set (hops m) then hops m else hops m @ [runtimeId s])
   \<and> (count_list (hops m) (runtimeId s) \<le> 1 \<longrightarrow>
        count_list (hops (snd (snd (routeMessage s m)))) (runtimeId s) \<le> 1)"
proof (intro conjI impI)
  show "routeMessage s m = (Done, s, m)" if "runtimeId s \<in> set (hops m)"
    using that by simp
  show "hops (snd (snd (routeMessage s m))) =
       (if runtimeId s \<in> set (hops m) then hops m else hops m @ [runtimeId s])"
    by (rule hops_routeMessage)
  show "count_list (hops (snd (snd (routeMessage s m)))) (runtimeId s) \<le> 1"
    if "count_list (hops m) (runtimeId s) \<le> 1"
    using that by (simp only: hops_routeMessage) (simp add: count_list_0_iff)
qed

theorem visited_envelope_dropped_witness:
  "runtimeId example_bridge \<in> set (hops ((example_request ''ping'')\<lparr>hops := [''rt-0'', ''rt-1'']\<rparr>))
   \<and> routeMessage example_bridge ((example_request ''ping'')\<lparr>hops := [''rt-0'', ''rt-1'']\<rparr>)
       = (Done, example_bridge, (example_request ''ping'')\<lparr>hops := [''rt-0'', ''rt-1'']\<rparr>)
   \<and> count_list (hops (example_request ''ping'')) (runtimeId example_bridge) \<le> 1
   \<and> hops (snd (snd (routeMessage example_bridge (example_request ''ping'')))) = [''rt-0'', ''rt-1'']
   \<and> count_list (hops (snd (snd (routeMessage example_bridge (example_request ''ping'')))))
        (runtimeId example_bridge) \<le> 1"
proof -
  let ?v = "(example_request ''ping'')\<lparr>hops := [''rt-0'', ''rt-1'']\<rparr>"
  have a: "runtimeId example_bridge \<in> set (hops ?v)"
    by (simp add: example_bridge_def)
  have b: "count_list (hops (example_request ''ping'')) (runtimeId example_bridge) \<le> 1"
    and c: "runtimeId example_bridge \<notin> set (hops (example_request ''ping''))"
    and d: "hops (example_request ''ping'') @ [runtimeId example_bridge] = [''rt-0'', ''rt-1'']"
    by (simp_all add: example_request_def example_bridge_def)
  from visited_envelope_dropped [of example_bridge ?v] a
  have 1: "routeMessage example_bridge ?v = (Done, example_bridge, ?v)"
    by blast
  from visited_envelope_dropped [of example_bridge "example_request ''ping''"] b c d
  have 2: "hops (snd (snd (routeMessage example_bridge (example_request ''ping'')))) = [''rt-0'', ''rt-1'']"
    and 3: "count_list (hops (snd (snd (routeMessage example_bridge (example_request ''ping'')))))
        (runtimeId example_bridge) \<le> 1"
    by (simp_all del: routeMessage.simps)
  from a 1 b 2 3 show ?thesis by blast
qed

section \<open>The namespace check of the forwarder\<close>

lemma ensureNamespaceSet_iff: "ensureNamespaceSet s = None \<longleftrightarrow> namespace_set s"
  by (auto simp: ensureNamespaceSet_def namespace_set_def split: jsval.splits)

lemma ensureNamespaceSet_throws:
  "\<not> namespace_set s \<Longrightarrow>
   ensureNamespaceSet s = Some (JObj (Error_new (ToString s) (JStr namespace_message)))"
  by (auto simp: ensureNamespaceSet_def namespace_set_def split: jsval.splits)

text \<open>
  C8. While the namespace is unset or is not a non-empty string, every forwarding attempt
  throws, synchronously, the error of \<open>ensureNamespaceSet\<close> before anything else
  happens: no channel is opened and nothing is posted, from \<open>routeMessageThroughWindow\<close>
  itself, from \<open>routeMessage\<close> on its forwarding branch and from the retry of a timed-out
  attempt alike. With a non-empty string as namespace the forwarder does not throw.
\<close>

theorem forwarder_needs_namespace:
  "(\<not> namespace_set s \<longrightarrow>
      routeMessageThroughWindow s m
        = (Thrown (JObj (Error_new (ToString s) (JStr namespace_message))), s)
      \<and> (runtimeId s \<notin> set (hops m) \<and> destination m = Some d \<and> truthy_context (context d) \<longrightarrow>
           routeMessage s m
             = (Thrown (JObj (Error_new (ToString s) (JStr namespace_message))), s,
                m\<lparr>hops := hops m @ [runtimeId s]\<rparr>))
      \<and> fst (retry_callback c s) = Thrown (JObj (Error_new (ToString s) (JStr namespace_message)))
      \<and> posted (snd (retry_callback c s)) = posted s
      \<and> length (channels (snd (retry_callback c s))) = length (channels s))
   \<and> (namespace_set s \<longrightarrow> fst (routeMessageThroughWindow s m) = Done)"
proof (intro conjI impI)
  assume bad: "\<not> namespace_set s"
  show 1: "routeMessageThroughWindow s m
        = (Thrown (JObj (Error_new (ToString s) (JStr namespace_message))), s)"
    using ensureNamespaceSet_throws [OF bad] by (simp add: routeMessageThroughWindow_def)
  show "routeMessage s m
             = (Thrown (JObj (Error_new (ToString s) (JStr namespace_message))), s,
                m\<lparr>hops := hops m @ [runtimeId s]\<rparr>)"
    if "runtimeId s \<notin> set (hops m) \<and> destination m = Some d \<and> truthy_context (context d)"
    using that ensureNamespaceSet_throws [OF bad] by (simp add: routeMessageThroughWindow_def)
  let ?s = "s\<lparr>channels := (channels s)[c := (channels s ! c)\<lparr>retry := False, onmessage := False\<rparr>]\<rparr>"
  have "\<not> namespace_set ?s" using bad by (simp add: namespace_set_def)
  from ensureNamespaceSet_throws [OF this]
  have r: "retry_callback c s = (Thrown (JObj (Error_new (ToString s) (JStr namespace_message))), ?s)"
    by (simp add: retry_callback_def routeMessageThroughWindow_def)
  show "fst (retry_callback c s) = Thrown (JObj (Error_new (ToString s) (JStr namespace_message)))"
    and "posted (snd (retry_callback c s)) = posted s"
    and "length (channels (snd (retry_callback c s))) = length (channels s)"
    by (simp_all add: r)
next
  assume "namespace_set s"
  then have "ensureNamespaceSet s = None" by (simp add: ensureNamespaceSet_iff)
  then show "fst (routeMessageThroughWindow s m) = Done"
    by (simp add: routeMessageThroughWindow_def)
qed

theorem forwarder_needs_namespace_witness:
  "\<not> namespace_set (example_bridge\<lparr>namespace := JUndefined\<rparr>)
   \<and> routeMessageThroughWindow (example_bridge\<lparr>namespace := JUndefined\<rparr>) (example_request ''ping'')
       = (Thrown (JObj [(''name'', JStr ''Error''), (''message'', JStr namespace_message)]),
          example_bridge\<lparr>namespace := JUndefined\<rparr>)
   \<and> \<not> namespace_set (example_bridge\<lparr>namespace := JStr []\<rparr>)
   \<and> routeMessageThroughWindow (example_bridge\<lparr>namespace := JStr []\<rparr>) (example_request ''ping'')
       = (Thrown (JObj [(''name'', JStr ''Error''), (''message'', JStr namespace_message)]),
          example_bridge\<lparr>namespace := JStr []\<rparr>)
   \<and> namespace_set example_bridge
   \<and> fst (routeMessageThroughWindow example_bridge (example_request ''ping'')) = Done"
proof -
  have a: "\<not> namespace_set (example_bridge\<lparr>namespace := JUndefined\<rparr>)"
    and b: "\<not> namespace_set (example_bridge\<lparr>namespace := JStr []\<rparr>)"
    and c: "namespace_set example_bridge"
    by (simp_all add: namespace_set_def example_bridge_def)
  have e: "Error_new ts (JStr namespace_message)
      = [(''name'', JStr ''Error''), (''message'', JStr namespace_message)]" for ts
    by (simp add: Error_new_def)
  from forwarder_needs_namespace [of "example_bridge\<lparr>namespace := JUndefined\<rparr>" "example_request ''ping''"] a
  have 1: "routeMessageThroughWindow (example_bridge\<lparr>namespace := JUndefined\<rparr>) (example_request ''ping'')
       = (Thrown (JObj [(''name'', JStr ''Error''), (''message'', JStr namespace_message)]),
          example_bridge\<lparr>namespace := JUndefined\<rparr>)"
    by (simp add: e)
  from forwarder_needs_namespace [of "example_bridge\<lparr>namespace := JStr []\<rparr>" "example_request ''ping''"] b
  have 2: "routeMessageThroughWindow (example_bridge\<lparr>namespace := JStr []\<rparr>) (example_request ''ping'')
       = (Thrown (JObj [(''name'', JStr ''Error''), (''message'', JStr namespace_message)]),
          example_bridge\<lparr>namespace := JStr []\<rparr>)"
    by (simp add: e)
  from forwarder_needs_namespace [of example_bridge "example_request ''ping''"] c
  have 3: "fst (routeMessageThroughWindow example_bridge (example_request ''ping'')) = Done"
    by blast
  from a b c 1 2 3 show ?thesis by blast
qed

section \<open>Dispatch of new messages\<close>

text \<open>Routing a freshly built reply: it has no hops yet and is addressed to the sender.\<close>

lemma routeMessage_reply:
  assumes "hops r = []" and "destination r = Some d" and "truthy_context (context d)"
    and "namespace_set s"
  shows "routeMessage s r =
     (Done,
      s\<lparr>channels := channels s @ [\<lparr>msg = r\<lparr>hops := [runtimeId s]\<rparr>, retry = True, onmessage = True\<rparr>],
        posted := posted s @
          [\<lparr>cmd = ''__crx_bridge_verify_listening'', scope = namespace s,
            context_wm = ''window'', payload = None, ports = [length (channels s)]\<rparr>]\<rparr>,
      r\<lparr>hops := [runtimeId s]\<rparr>)"
proof -
  from assms(4) have "ensureNamespaceSet s = None"
    by (auto simp: ensureNamespaceSet_def namespace_set_def split: jsval.splits)
  with assms(1-3) show ?thesis
    by (simp add: routeMessageThroughWindow_def currentContext_def)
qed

text \<open>
  C6. When the handler of a message returns \<open>v\<close>, the envelope handed to
  \<open>routeMessage\<close> is a reply with \<open>data = v\<close>, the request's \<open>transactionId\<close>, the
  current context as origin, the request's origin as destination and an empty \<open>hops\<close>
  list; the dispatch ends as that routing ends and throws nothing of its own. With the
  namespace set and a sender that has a context, the routing appends the local identity
  to the empty list, posts the probe and keeps the reply for the broadcast.
\<close>

theorem handler_result_reply:
  assumes "onMessageListeners s (messageID m) = Some cb"
    and "cb \<lparr>sender = origin m, id_bm = messageID m, data_bm = data m, timestamp_bm = timestamp m\<rparr>
           = Returns v"
    and "r = \<lparr>transactionId = transactionId m,
              messageID = messageID m,
              messageType = Reply,
              origin = \<lparr>context = Some ''window'', tabId = Null\<rparr>,
              destination = Some (origin m),
              data = v,
              err = err m,
              hops = [],
              timestamp = timestamp m\<rparr>"
  shows "handleNewMessage s m =
           (case fst (routeMessage s r) of Thrown x \<Rightarrow> Rejected x | _ \<Rightarrow> Done,
            fst (snd (routeMessage s r)), m)
       \<and> (namespace_set s \<and> truthy_context (context (origin m)) \<longrightarrow>
            handleNewMessage s m =
              (Done,
               s\<lparr>channels := channels s @
                    [\<lparr>msg = r\<lparr>hops := [runtimeId s]\<rparr>, retry = True, onmessage = True\<rparr>],
                 posted := posted s @
                    [\<lparr>cmd = ''__crx_bridge_verify_listening'', scope = namespace s,
                      context_wm = ''window'', payload = None, ports = [length (channels s)]\<rparr>]\<rparr>,
               m))"
proof
  show eq: "handleNewMessage s m =
           (case fst (routeMessage s r) of Thrown x \<Rightarrow> Rejected x | _ \<Rightarrow> Done,
            fst (snd (routeMessage s r)), m)"
    using assms
    by (simp add: try_listener_def currentContext_def split: prod.splits completion.splits
        del: routeMessage.simps)
  show "namespace_set s \<and> truthy_context (context (origin m)) \<longrightarrow>
            handleNewMessage s m =
              (Done,
               s\<lparr>channels := channels s @
                    [\<lparr>msg = r\<lparr>hops := [runtimeId s]\<rparr>, retry = True, onmessage = True\<rparr>],
                 posted := posted s @
                    [\<lparr>cmd = ''__crx_bridge_verify_listening'', scope = namespace s,
                      context_wm = ''window'', payload = None, ports = [length (channels s)]\<rparr>]\<rparr>,
               m)"
  proof
    assume h: "namespace_set s \<and> truthy_context (context (origin m))"
    have "hops r = []" and "destination r = Some (origin m)"
      by (simp_all add: assms(3))
    from routeMessage_reply [OF this] h show "handleNewMessage s m =
              (Done,
               s\<lparr>channels := channels s @
                    [\<lparr>msg = r\<lparr>hops := [runtimeId s]\<rparr>, retry = True, onmessage = True\<rparr>],
                 posted := posted s @
                    [\<lparr>cmd = ''__crx_bridge_verify_listening'', scope = namespace s,
                      context_wm = ''window'', payload = None, ports = [length (channels s)]\<rparr>]\<rparr>,
               m)"
      by (simp only: eq) simp
  qed
qed


theorem handler_result_reply_witness:
  "onMessageListeners example_bridge (messageID (example_request ''ping''))
     = Some (\<lambda>b. Returns (JObj [(''n'', JNum 2)]))
   \<and> namespace_set example_bridge
   \<and> truthy_context (context (origin (example_request ''ping'')))
   \<and> handleNewMessage example_bridge (example_request ''ping'') =
       (Done,
        example_bridge
          \<lparr>channels :=
             [\<lparr>msg = \<lparr>transactionId = ''tx-9'', messageID = ''ping'', messageType = Reply,
                      origin = \<lparr>context = Some ''window'', tabId = Null\<rparr>,
                      destination = Some \<lparr>context = Some ''content-script'', tabId = TabId 7\<rparr>,
                      data = JObj [(''n'', JNum 2)], err = JUndefined,
                      hops = [''rt-1''], timestamp = 1000\<rparr>,
               retry = True, onmessage = True\<rparr>],
           posted :=
             [\<lparr>cmd = ''__crx_bridge_verify_listening'', scope = JStr ''app'',
               context_wm = ''window'', payload = None, ports = [0]\<rparr>]\<rparr>,
        example_request ''ping'')"
proof -
  let ?m = "example_request ''ping''"
  let ?r = "\<lparr>transactionId = transactionId ?m, messageID = messageID ?m, messageType = Reply,
             origin = \<lparr>context = Some ''window'', tabId = Null\<rparr>,
             destination = Some (origin ?m), data = JObj [(''n'', JNum 2)], err = err ?m,
             hops = [], timestamp = timestamp ?m\<rparr>"
  have a: "onMessageListeners example_bridge (messageID ?m) = Some (\<lambda>b. Returns (JObj [(''n'', JNum 2)]))"
    by (simp add: example_bridge_def example_request_def)
  have b: "(\<lambda>b. Returns (JObj [(''n'', JNum 2)]))
             \<lparr>sender = origin ?m, id_bm = messageID ?m, data_bm = data ?m, timestamp_bm = timestamp ?m\<rparr>
           = Returns (JObj [(''n'', JNum 2)])"
    by simp
  have c: "namespace_set example_bridge" and d: "truthy_context (context (origin ?m))"
    by (simp_all add: namespace_set_def example_bridge_def truthy_context_def example_request_def)
  from handler_result_reply [OF a b, of ?r] c d
  have "handleNewMessage example_bridge ?m =
              (Done,
               example_bridge\<lparr>channels := channels example_bridge @
                    [\<lparr>msg = ?r\<lparr>hops := [runtimeId example_bridge]\<rparr>, retry = True, onmessage = True\<rparr>],
                 posted := posted example_bridge @
                    [\<lparr>cmd = ''__crx_bridge_verify_listening'', scope = namespace example_bridge,
                      context_wm = ''window'', payload = None,
                      ports = [length (channels example_bridge)]\<rparr>]\<rparr>,
               ?m)"
    by blast
  then show ?thesis
    using a c d by (simp add: example_bridge_def example_request_def del: handleNewMessage.simps)
qed

lemma serializeError_Error_new:
  "serializeError (JObj (Error_new ts (JStr text)))
     = JObj [(''name'', JStr ''Error''), (''message'', JStr text)]"
  by (simp add: Error_new_def for_in_keys_def get_prop_def)

text \<open>
  C5. When no handler is registered for the \<open>messageID\<close> of a message, the envelope
  handed to \<open>routeMessage\<close> is a reply whose \<open>err\<close> is the serialized error "No handler
  registered in 'window' to accept messages with id '...'", naming the local context and
  the missing \<open>messageID\<close>. The dispatch does not throw that error again: it ends as
  the routing of the reply ends, and normally whenever the forwarder accepts the reply.
\<close>

theorem no_handler_reply:
  assumes "onMessageListeners s (messageID m) = None"
    and "e = JObj [(''name'', JStr ''Error''),
                   (''message'', JStr (''[webext-bridge] No handler registered in '' @ [CHR 0x27]
                      @ ''window'' @ [CHR 0x27] @ '' to accept messages with id '' @ [CHR 0x27]
                      @ messageID m @ [CHR 0x27]))]"
    and "r = \<lparr>transactionId = transactionId m,
              messageID = messageID m,
              messageType = Reply,
              origin = \<lparr>context = Some ''window'', tabId = Null\<rparr>,
              destination = Some (origin m),
              data = JUndefined,
              err = e,
              hops = [],
              timestamp = timestamp m\<rparr>"
  shows "handleNewMessage s m =
           (case fst (routeMessage s r) of Thrown x \<Rightarrow> Rejected x | _ \<Rightarrow> Done,
            fst (snd (routeMessage s r)), m\<lparr>err := e\<rparr>)
       \<and> (namespace_set s \<and> truthy_context (context (origin m)) \<longrightarrow>
            handleNewMessage s m =
              (Done,
               s\<lparr>channels := channels s @
                    [\<lparr>msg = r\<lparr>hops := [runtimeId s]\<rparr>, retry = True, onmessage = True\<rparr>],
                 posted := posted s @
                    [\<lparr>cmd = ''__crx_bridge_verify_listening'', scope = namespace s,
                      context_wm = ''window'', payload = None, ports = [length (channels s)]\<rparr>]\<rparr>,
               m\<lparr>err := e\<rparr>))"
proof
  have t: "try_listener s m =
      (JUndefined, JObj (Error_new (ToString s) (JStr (no_handler_message (messageID m)))), True)"
    using assms(1) by (simp add: try_listener_def)
  have se: "serializeError (JObj (Error_new (ToString s) (JStr (no_handler_message (messageID m))))) = e"
    by (simp only: serializeError_Error_new assms(2)) (simp add: no_handler_message_def currentContext_def)
  show eq: "handleNewMessage s m =
           (case fst (routeMessage s r) of Thrown x \<Rightarrow> Rejected x | _ \<Rightarrow> Done,
            fst (snd (routeMessage s r)), m\<lparr>err := e\<rparr>)"
    by (simp add: t se assms(3) currentContext_def split: prod.splits completion.splits
        del: routeMessage.simps serializeError.simps)
  show "namespace_set s \<and> truthy_context (context (origin m)) \<longrightarrow>
            handleNewMessage s m =
              (Done,
               s\<lparr>channels := channels s @
                    [\<lparr>msg = r\<lparr>hops := [runtimeId s]\<rparr>, retry = True, onmessage = True\<rparr>],
                 posted := posted s @
                    [\<lparr>cmd = ''__crx_bridge_verify_listening'', scope = namespace s,
                      context_wm = ''window'', payload = None, ports = [length (channels s)]\<rparr>]\<rparr>,
               m\<lparr>err := e\<rparr>)"
  proof
    assume h: "namespace_set s \<and> truthy_context (context (origin m))"
    have "hops r = []" and "destination r = Some (origin m)"
      by (simp_all add: assms(3))
    from routeMessage_reply [OF this] h show "handleNewMessage s m =
              (Done,
               s\<lparr>channels := channels s @
                    [\<lparr>msg = r\<lparr>hops := [runtimeId s]\<rparr>, retry = True, onmessage = True\<rparr>],
                 posted := posted s @
                    [\<lparr>cmd = ''__crx_bridge_verify_listening'', scope = namespace s,
                      context_wm = ''window'', payload = None, ports = [length (channels s)]\<rparr>]\<rparr>,
               m\<lparr>err := e\<rparr>)"
      by (simp only: eq) simp
  qed
qed


theorem no_handler_reply_witness:
  "onMessageListeners example_bridge (messageID (example_request ''nobody'')) = None
   \<and> namespace_set example_bridge
   \<and> truthy_context (context (origin (example_request ''nobody'')))
   \<and> handleNewMessage example_bridge (example_request ''nobody'') =
       (Done,
        example_bridge
          \<lparr>channels :=
             [\<lparr>msg = \<lparr>transactionId = ''tx-9'', messageID = ''nobody'', messageType = Reply,
                      origin = \<lparr>context = Some ''window'', tabId = Null\<rparr>,
                      destination = Some \<lparr>context = Some ''content-script'', tabId = TabId 7\<rparr>,
                      data = JUndefined,
                      err = JObj [(''name'', JStr ''Error''),
                                  (''message'', JStr (''[webext-bridge] No handler registered in ''
                                     @ [CHR 0x27] @ ''window'' @ [CHR 0x27]
                                     @ '' to accept messages with id '' @ [CHR 0x27]
                                     @ ''nobody'' @ [CHR 0x27]))],
                      hops = [''rt-1''], timestamp = 1000\<rparr>,
               retry = True, onmessage = True\<rparr>],
           posted :=
             [\<lparr>cmd = ''__crx_bridge_verify_listening'', scope = JStr ''app'',
               context_wm = ''window'', payload = None, ports = [0]\<rparr>]\<rparr>,
        (example_request ''nobody'')
          \<lparr>err := JObj [(''name'', JStr ''Error''),
                        (''message'', JStr (''[webext-bridge] No handler registered in ''
                           @ [CHR 0x27] @ ''window'' @ [CHR 0x27]
                           @ '' to accept messages with id '' @ [CHR 0x27]
                           @ ''nobody'' @ [CHR 0x27]))]\<rparr>)"
proof -
  let ?m = "example_request ''nobody''"
  let ?e = "JObj [(''name'', JStr ''Error''),
                   (''message'', JStr (''[webext-bridge] No handler registered in '' @ [CHR 0x27]
                      @ ''window'' @ [CHR 0x27] @ '' to accept messages with id '' @ [CHR 0x27]
                      @ messageID ?m @ [CHR 0x27]))]"
  let ?r = "\<lparr>transactionId = transactionId ?m, messageID = messageID ?m, messageType = Reply,
             origin = \<lparr>context = Some ''window'', tabId = Null\<rparr>,
             destination = Some (origin ?m), data = JUndefined, err = ?e,
             hops = [], timestamp = timestamp ?m\<rparr>"
  have a: "onMessageListeners example_bridge (messageID ?m) = None"
    by (simp add: example_bridge_def example_request_def)
  have c: "namespace_set example_bridge" and d: "truthy_context (context (origin ?m))"
    by (simp_all add: namespace_set_def example_bridge_def truthy_context_def example_request_def)
  from no_handler_reply [OF a, of ?e ?r] c d
  have "handleNewMessage example_bridge ?m =
              (Done,
               example_bridge\<lparr>channels := channels example_bridge @
                    [\<lparr>msg = ?r\<lparr>hops := [runtimeId example_bridge]\<rparr>, retry = True, onmessage = True\<rparr>],
                 posted := posted example_bridge @
                    [\<lparr>cmd = ''__crx_bridge_verify_listening'', scope = namespace example_bridge,
                      context_wm = ''window'', payload = None,
                      ports = [length (channels example_bridge)]\<rparr>]\<rparr>,
               ?m\<lparr>err := ?e\<rparr>)"
    by blast
  then show ?thesis
    using a c d by (simp add: example_bridge_def example_request_def del: handleNewMessage.simps)
qed

text \<open>
  What the dispatch does when the handler throws a truthy value \<open>e\<close>: the reply carries
  the serialized \<open>e\<close> in \<open>err\<close> and no data, and once it is routed the statement
  \<open>throw reply\<close> throws the value of \<open>reply\<close>, which was never assigned.
\<close>

lemma handler_throw_reply:
  assumes "onMessageListeners s (messageID m) = Some cb"
    and "cb \<lparr>sender = origin m, id_bm = messageID m, data_bm = data m, timestamp_bm = timestamp m\<rparr>
           = Throws e"
    and "truthy e"
    and "r = \<lparr>transactionId = transactionId m,
              messageID = messageID m,
              messageType = Reply,
              origin = \<lparr>context = Some ''window'', tabId = Null\<rparr>,
              destination = Some (origin m),
              data = JUndefined,
              err = serializeError e,
              hops = [],
              timestamp = timestamp m\<rparr>"
  shows "handleNewMessage s m =
           (case fst (routeMessage s r) of Thrown x \<Rightarrow> Rejected x | _ \<Rightarrow> Rejected JUndefined,
            fst (snd (routeMessage s r)), m\<lparr>err := serializeError e\<rparr>)"
  using assms
  by (simp add: try_listener_def currentContext_def split: prod.splits completion.splits
      del: routeMessage.simps serializeError.simps)

text \<open>
  A thrown value that is falsy passes both tests of the \<open>finally\<close> block: the reply
  carries no error of the handler and nothing is thrown.
\<close>

lemma handler_throw_falsy:
  assumes "onMessageListeners s (messageID m) = Some cb"
    and "cb \<lparr>sender = origin m, id_bm = messageID m, data_bm = data m, timestamp_bm = timestamp m\<rparr>
           = Throws e"
    and "\<not> truthy e"
    and "r = \<lparr>transactionId = transactionId m,
              messageID = messageID m,
              messageType = Reply,
              origin = \<lparr>context = Some ''window'', tabId = Null\<rparr>,
              destination = Some (origin m),
              data = JUndefined,
              err = err m,
              hops = [],
              timestamp = timestamp m\<rparr>"
  shows "handleNewMessage s m =
           (case fst (routeMessage s r) of Thrown x \<Rightarrow> Rejected x | _ \<Rightarrow> Done,
            fst (snd (routeMessage s r)), m)"
  using assms
  by (simp add: try_listener_def currentContext_def split: prod.splits completion.splits
      del: routeMessage.simps serializeError.simps)

text \<open>
  C1. The handler registered for \<open>fail\<close> throws a \<open>TypeError\<close> with the message
  \<open>boom\<close>. The reply that is routed carries the serialized error in \<open>err\<close>, but what
  the handling context sees thrown is \<open>undefined\<close>, a value with neither name nor
  message, not the handler's error.
\<close>

theorem handler_throw_surfaces_undefined:
  "handleNewMessage example_bridge (example_request ''fail'') =
       (Rejected JUndefined,
        example_bridge
          \<lparr>channels :=
             [\<lparr>msg = \<lparr>transactionId = ''tx-9'', messageID = ''fail'', messageType = Reply,
                      origin = \<lparr>context = Some ''window'', tabId = Null\<rparr>,
                      destination = Some \<lparr>context = Some ''content-script'', tabId = TabId 7\<rparr>,
                      data = JUndefined,
                      err = JObj [(''name'', JStr ''TypeError''), (''message'', JStr ''boom''),
                                  (''code'', JNum 7)],
                      hops = [''rt-1''], timestamp = 1000\<rparr>,
               retry = True, onmessage = True\<rparr>],
           posted :=
             [\<lparr>cmd = ''__crx_bridge_verify_listening'', scope = JStr ''app'',
               context_wm = ''window'', payload = None, ports = [0]\<rparr>]\<rparr>,
        (example_request ''fail'')
          \<lparr>err := JObj [(''name'', JStr ''TypeError''), (''message'', JStr ''boom''),
                        (''code'', JNum 7)]\<rparr>)
   \<and> get_prop JUndefined ''name'' = JUndefined
   \<and> get_prop example_error ''name'' = JStr ''TypeError''"
proof -
  let ?m = "example_request ''fail''"
  let ?r = "\<lparr>transactionId = transactionId ?m, messageID = messageID ?m, messageType = Reply,
             origin = \<lparr>context = Some ''window'', tabId = Null\<rparr>,
             destination = Some (origin ?m), data = JUndefined, err = serializeError example_error,
             hops = [], timestamp = timestamp ?m\<rparr>"
  have a: "onMessageListeners example_bridge (messageID ?m) = Some (\<lambda>b. Throws example_error)"
    by (simp add: example_bridge_def example_request_def)
  have b: "(\<lambda>b. Throws example_error)
             \<lparr>sender = origin ?m, id_bm = messageID ?m, data_bm = data ?m, timestamp_bm = timestamp ?m\<rparr>
           = Throws example_error"
    by simp
  have t: "truthy example_error" by (simp add: example_error_def)
  have c: "namespace_set example_bridge" and d: "truthy_context (context (origin ?m))"
    by (simp_all add: namespace_set_def example_bridge_def truthy_context_def example_request_def)
  have h: "hops ?r = []" and dst: "destination ?r = Some (origin ?m)" by simp_all
  have se: "serializeError example_error
      = JObj [(''name'', JStr ''TypeError''), (''message'', JStr ''boom''), (''code'', JNum 7)]"
    by (simp add: example_error_def for_in_keys_def get_prop_def)
  have "handleNewMessage example_bridge ?m =
           (case fst (routeMessage example_bridge ?r) of Thrown x \<Rightarrow> Rejected x | _ \<Rightarrow> Rejected JUndefined,
            fst (snd (routeMessage example_bridge ?r)), ?m\<lparr>err := serializeError example_error\<rparr>)"
    by (rule handler_throw_reply [OF a b t]) simp
  then have "handleNewMessage example_bridge ?m =
       (Rejected JUndefined,
        example_bridge\<lparr>channels := channels example_bridge @
             [\<lparr>msg = ?r\<lparr>hops := [runtimeId example_bridge]\<rparr>, retry = True, onmessage = True\<rparr>],
           posted := posted example_bridge @
             [\<lparr>cmd = ''__crx_bridge_verify_listening'', scope = namespace example_bridge,
               context_wm = ''window'', payload = None,
               ports = [length (channels example_bridge)]\<rparr>]\<rparr>,
        ?m\<lparr>err := serializeError example_error\<rparr>)"
    by (simp only: routeMessage_reply [OF h dst d c]) simp
  then show ?thesis
    by (simp add: se [unfolded example_error_def] example_bridge_def example_request_def
        get_prop_def example_error_def del: handleNewMessage.simps serializeError.simps)
qed

section \<open>The handshake of the forwarder\<close>

text \<open>
  Once the envelope is out, no event but a further acknowledgment on the same channel
  changes anything.
\<close>

lemma delivered_deliver:
  assumes "delivered n0 k t" "n0 \<le> channel_of e" "e \<noteq> PortMessage k"
  shows "deliver e t = t"
  using assms by (cases e) (auto simp: delivered_def)

lemma run_Cons: "run (e # evs) t = run evs (deliver e t)"
  by (simp add: run_def)

text \<open>
  Every further acknowledgment on the channel that still has its callback broadcasts the
  envelope once more.
\<close>

lemma delivered_count:
  assumes "delivered n0 k t" and "n0 \<le> k" and "k < length (channels t)"
    and "channels t ! k = \<lparr>msg = m, retry = False, onmessage = True\<rparr>"
    and "\<forall>e\<in>set evs. n0 \<le> channel_of e"
  shows "deliveries m (run evs t) = deliveries m t + count_list (acks evs) k"
  using assms
proof (induction evs arbitrary: t)
  case Nil
  then show ?case by (simp add: run_def)
next
  case (Cons e evs)
  have rest: "\<forall>e\<in>set evs. n0 \<le> channel_of e" using Cons.prems(5) by simp
  show ?case
  proof (cases "e = PortMessage k")
    case True
    define t' where "t' =
      t\<lparr>posted := posted t @
         [\<lparr>cmd = ''__crx_bridge_route_message'', scope = namespace t,
           context_wm = currentContext, payload = Some m, ports = []\<rparr>]\<rparr>"
    have same: "(channels t)[k := \<lparr>msg = m, retry = False, onmessage = True\<rparr>] = channels t"
      using list_update_id [of "channels t" k] by (simp only: Cons.prems(4))
    have step: "deliver e t = t'"
      using True Cons.prems(3,4) by (simp add: onmessage_callback_def t'_def same)
    have ch: "channels t' = channels t" by (simp add: t'_def)
    have d: "deliveries m t' = Suc (deliveries m t)"
      by (simp add: deliveries_def t'_def)
    have "delivered n0 k t'" using Cons.prems(1) by (simp add: delivered_def ch)
    moreover have "k < length (channels t')"
      and "channels t' ! k = \<lparr>msg = m, retry = False, onmessage = True\<rparr>"
      using Cons.prems(3,4) by (simp_all add: ch)
    ultimately have "deliveries m (run evs t') = deliveries m t' + count_list (acks evs) k"
      using Cons.IH Cons.prems(2) rest by blast
    then show ?thesis
      using True d by (simp add: run_Cons step [unfolded True] del: deliver.simps)
  next
    case False
    with Cons.prems have same: "deliver e t = t" by (auto intro: delivered_deliver)
    have "count_list (acks (e # evs)) k = count_list (acks evs) k"
      using False by (cases e) auto
    moreover have "deliveries m (run evs t) = deliveries m t + count_list (acks evs) k"
      using Cons.IH Cons.prems(1-4) rest by blast
    ultimately show ?thesis by (simp add: run_Cons same del: deliver.simps)
  qed
qed

text \<open>
  While the forwarding waits: a timeout of the newest attempt starts the next one, an
  acknowledgment of the newest attempt sends the envelope, and the events of the older
  attempts find a spent timer and a detached callback.
\<close>

lemma waiting_timeout:
  assumes w: "waiting n0 m t" and c: "n0 \<le> c"
  shows "waiting n0 m (deliver (Timeout c) t) \<and> deliveries m (deliver (Timeout c) t) = deliveries m t"
proof (cases "c = length (channels t) - 1")
  case True
  from w have ns: "namespace_set t"
    and at: "channels t ! c = \<lparr>msg = m, retry = True, onmessage = True\<rparr>"
    and len: "n0 < length (channels t)"
    and dead: "\<And>i. n0 \<le> i \<Longrightarrow> i < length (channels t) - 1 \<Longrightarrow>
         \<not> retry (channels t ! i) \<and> \<not> onmessage (channels t ! i)"
    by (auto simp: waiting_def True)
  have clt: "c < length (channels t)" using True len by simp
  define cs where "cs = (channels t)[c := \<lparr>msg = m, retry = False, onmessage = False\<rparr>]
                       @ [\<lparr>msg = m, retry = True, onmessage = True\<rparr>]"
  define t' where "t' = t\<lparr>channels := cs,
           posted := posted t @
               [\<lparr>cmd = ''__crx_bridge_verify_listening'', scope = namespace t,
                 context_wm = currentContext, payload = None,
                 ports = [length (channels t)]\<rparr>]\<rparr>"
  have ns': "ensureNamespaceSet
      (t\<lparr>channels := (channels t)[c := \<lparr>msg = m, retry = False, onmessage = False\<rparr>]\<rparr>) = None"
    using ns by (simp add: ensureNamespaceSet_def namespace_set_def split: jsval.splits)
  have step: "deliver (Timeout c) t = t'"
    using clt at ns' by (simp add: retry_callback_def routeMessageThroughWindow_def t'_def cs_def)
  have ch: "channels t' = cs" and lcs: "length cs = Suc (length (channels t))"
    by (simp_all add: t'_def cs_def)
  have "namespace_set t'" using ns by (simp add: namespace_set_def t'_def)
  moreover have "n0 < length (channels t')" using len by (simp add: ch lcs)
  moreover have "channels t' ! (length (channels t') - 1) = \<lparr>msg = m, retry = True, onmessage = True\<rparr>"
    by (simp add: ch lcs) (simp add: cs_def nth_append)
  moreover have "\<not> retry (channels t' ! i) \<and> \<not> onmessage (channels t' ! i)"
    if "n0 \<le> i \<and> i < length (channels t') - 1" for i
  proof -
    from that have ilt: "i < length (channels t)" by (simp add: ch lcs)
    show ?thesis
    proof (cases "i = c")
      case True
      then show ?thesis using clt by (simp add: ch cs_def nth_append)
    next
      case False
      with ilt \<open>c = length (channels t) - 1\<close> have "i < length (channels t) - 1" by simp
      with that dead[of i] False ilt show ?thesis by (simp add: ch cs_def nth_append)
    qed
  qed
  ultimately have "waiting n0 m t'" by (simp add: waiting_def)
  moreover have "deliveries m t' = deliveries m t"
    by (simp add: deliveries_def t'_def)
  ultimately show ?thesis unfolding step by simp
next
  case False
  with w c have "\<not> (c < length (channels t) \<and> retry (channels t ! c))"
    by (auto simp: waiting_def)
  then have "deliver (Timeout c) t = t" by auto
  with w show ?thesis by simp
qed

lemma waiting_ack_stale:
  assumes w: "waiting n0 m t" and c: "n0 \<le> c" and ne: "c \<noteq> length (channels t) - 1"
  shows "deliver (PortMessage c) t = t \<and> \<not> (c < length (channels t) \<and> retry (channels t ! c))"
proof -
  from w c ne have "\<not> (c < length (channels t) \<and> onmessage (channels t ! c))"
    and "\<not> (c < length (channels t) \<and> retry (channels t ! c))"
    by (auto simp: waiting_def)
  then show ?thesis by auto
qed

lemma waiting_ack_live:
  assumes w: "waiting n0 m t" and c: "c = length (channels t) - 1"
  shows "delivered n0 c (deliver (PortMessage c) t)"
    and "deliveries m (deliver (PortMessage c) t) = Suc (deliveries m t)"
    and "c < length (channels t) \<and> retry (channels t ! c) \<and> onmessage (channels t ! c)"
    and "n0 \<le> c \<and> c < length (channels (deliver (PortMessage c) t))
         \<and> channels (deliver (PortMessage c) t) ! c = \<lparr>msg = m, retry = False, onmessage = True\<rparr>"
proof -
  from w have at: "channels t ! c = \<lparr>msg = m, retry = True, onmessage = True\<rparr>"
    and len: "n0 < length (channels t)"
    and dead: "\<And>i. n0 \<le> i \<Longrightarrow> i < length (channels t) - 1 \<Longrightarrow>
         \<not> retry (channels t ! i) \<and> \<not> onmessage (channels t ! i)"
    by (auto simp: waiting_def c)
  have clt: "c < length (channels t)" and cge: "n0 \<le> c" using c len by simp_all
  show "c < length (channels t) \<and> retry (channels t ! c) \<and> onmessage (channels t ! c)"
    using clt at by simp
  define t' where "t' =
      t\<lparr>channels := (channels t)[c := \<lparr>msg = m, retry = False, onmessage = True\<rparr>],
        posted := posted t @
         [\<lparr>cmd = ''__crx_bridge_route_message'', scope = namespace t,
           context_wm = currentContext, payload = Some m, ports = []\<rparr>]\<rparr>"
  have step: "deliver (PortMessage c) t = t'"
    using clt at by (simp add: onmessage_callback_def t'_def)
  have ch: "channels t' = (channels t)[c := \<lparr>msg = m, retry = False, onmessage = True\<rparr>]"
    by (simp add: t'_def)
  show "deliveries m (deliver (PortMessage c) t) = Suc (deliveries m t)"
    unfolding step by (simp add: deliveries_def t'_def)
  show "n0 \<le> c \<and> c < length (channels (deliver (PortMessage c) t))
         \<and> channels (deliver (PortMessage c) t) ! c = \<lparr>msg = m, retry = False, onmessage = True\<rparr>"
    unfolding step using clt cge by (simp add: ch)
  have "\<not> retry (channels t' ! i) \<and> (i \<noteq> c \<longrightarrow> \<not> onmessage (channels t' ! i))"
    if "n0 \<le> i \<and> i < length (channels t')" for i
  proof (cases "i = c")
    case True
    then show ?thesis using clt by (simp add: ch)
  next
    case False
    with that c have "i < length (channels t) - 1" by (auto simp: ch)
    with that dead [of i] False show ?thesis by (simp add: ch)
  qed
  then show "delivered n0 c (deliver (PortMessage c) t)"
    unfolding step by (simp add: delivered_def)
qed

lemma waiting_run:
  "waiting n0 m t \<Longrightarrow> \<forall>e\<in>set evs. n0 \<le> channel_of e \<Longrightarrow>
   deliveries m (run evs t) = deliveries m t + (if answered evs t then 1 + repeats evs t else 0)"
proof (induction evs arbitrary: t)
  case Nil
  then show ?case by (simp add: run_def)
next
  case (Cons e evs)
  show ?case
  proof (cases e)
    case (Timeout c)
    with Cons.prems have c: "n0 \<le> c" by simp
    from waiting_timeout [OF Cons.prems(1) c]
    have w': "waiting n0 m (deliver e t)" and d: "deliveries m (deliver e t) = deliveries m t"
      by (simp_all add: Timeout)
    have "deliveries m (run evs (deliver e t)) =
        deliveries m (deliver e t)
        + (if answered evs (deliver e t) then 1 + repeats evs (deliver e t) else 0)"
      using Cons.IH [OF w'] Cons.prems Timeout by simp
    then show ?thesis using d Timeout by (simp add: run_Cons del: deliver.simps)
  next
    case (PortMessage c)
    with Cons.prems have c: "n0 \<le> c" and evs: "\<forall>e\<in>set evs. n0 \<le> channel_of e"
      by simp_all
    show ?thesis
    proof (cases "c = length (channels t) - 1")
      case True
      note live = waiting_ack_live [OF Cons.prems(1) True]
      from live(4) have "n0 \<le> c" and "c < length (channels (deliver (PortMessage c) t))"
        and "channels (deliver (PortMessage c) t) ! c = \<lparr>msg = m, retry = False, onmessage = True\<rparr>"
        by blast+
      with live(1) have "deliveries m (run evs (deliver (PortMessage c) t))
          = deliveries m (deliver (PortMessage c) t) + count_list (acks evs) c"
        using evs by (rule delivered_count)
      then show ?thesis
        using live(2,3) PortMessage by (simp add: run_Cons del: deliver.simps)
    next
      case False
      from waiting_ack_stale [OF Cons.prems(1) c False]
      have same: "deliver e t = t" and stale: "\<not> (c < length (channels t) \<and> retry (channels t ! c))"
        by (simp_all add: PortMessage)
      from Cons.prems(1) c False have detached: "\<not> (c < length (channels t) \<and> onmessage (channels t ! c))"
        by (auto simp: waiting_def)
      have "deliveries m (run evs t) = deliveries m t + (if answered evs t then 1 + repeats evs t else 0)"
        using Cons.IH [OF Cons.prems(1) evs] .
      then show ?thesis
        using same stale detached PortMessage by (auto simp: run_Cons simp del: deliver.simps)
    qed
  qed
qed

lemma waiting_start:
  assumes "namespace_set s"
  shows "routeMessageThroughWindow s m =
      (Done,
       s\<lparr>channels := channels s @ [\<lparr>msg = m, retry = True, onmessage = True\<rparr>],
         posted := posted s @
           [\<lparr>cmd = ''__crx_bridge_verify_listening'', scope = namespace s,
             context_wm = currentContext, payload = None, ports = [length (channels s)]\<rparr>]\<rparr>)"
    and "waiting (length (channels s)) m (snd (routeMessageThroughWindow s m))"
    and "deliveries m (snd (routeMessageThroughWindow s m)) = deliveries m s"
proof -
  from assms have "ensureNamespaceSet s = None" by (simp add: ensureNamespaceSet_iff)
  then show eq: "routeMessageThroughWindow s m =
      (Done,
       s\<lparr>channels := channels s @ [\<lparr>msg = m, retry = True, onmessage = True\<rparr>],
         posted := posted s @
           [\<lparr>cmd = ''__crx_bridge_verify_listening'', scope = namespace s,
             context_wm = currentContext, payload = None, ports = [length (channels s)]\<rparr>]\<rparr>)"
    by (simp add: routeMessageThroughWindow_def)
  show "waiting (length (channels s)) m (snd (routeMessageThroughWindow s m))"
    using assms by (auto simp: eq waiting_def namespace_set_def)
  show "deliveries m (snd (routeMessageThroughWindow s m)) = deliveries m s"
    by (simp add: eq deliveries_def)
qed

lemma timeout_retries:
  assumes "namespace_set t" and "c < length (channels t)" and "retry (channels t ! c)"
  shows "deliver (Timeout c) t =
      t\<lparr>channels := (channels t)[c := (channels t ! c)\<lparr>retry := False, onmessage := False\<rparr>]
                      @ [\<lparr>msg = msg (channels t ! c), retry = True, onmessage = True\<rparr>],
        posted := posted t @
          [\<lparr>cmd = ''__crx_bridge_verify_listening'', scope = namespace t,
            context_wm = currentContext, payload = None, ports = [length (channels t)]\<rparr>]\<rparr>"
proof -
  have "namespace_set (t\<lparr>channels := (channels t)[c := (channels t ! c)\<lparr>retry := False, onmessage := False\<rparr>]\<rparr>)"
    using assms(1) by (simp add: namespace_set_def)
  then have "ensureNamespaceSet
      (t\<lparr>channels := (channels t)[c := (channels t ! c)\<lparr>retry := False, onmessage := False\<rparr>]\<rparr>) = None"
    by (simp only: ensureNamespaceSet_iff)
  with assms(2,3) show ?thesis
    by (simp add: retry_callback_def routeMessageThroughWindow_def)
qed

text \<open>
  C9 (amended). One envelope \<open>m\<close> is forwarded with the namespace set, and the events
  that follow are those of its own channels. When the timer of an attempt fires, the
  callback of its channel is detached and a new attempt on a new channel is started with
  a new probe. The envelope is not broadcast as long as no acknowledgment arrives before
  the timeout of its attempt; the first acknowledgment that does broadcasts it once, and
  every further acknowledgment on that same channel broadcasts it once more. So it is
  broadcast exactly once in every run in which some attempt is acknowledged in time and
  that attempt's channel is not acknowledged again. Acknowledgments of timed-out
  attempts, however many and however late, add nothing.
\<close>

theorem handshake_delivers_once:
  assumes "namespace_set s"
    and "\<forall>e \<in> set evs. length (channels s) \<le> channel_of e"
  shows "fst (routeMessageThroughWindow s m) = Done
       \<and> deliveries m (run evs (snd (routeMessageThroughWindow s m)))
           = deliveries m s
             + (if answered evs (snd (routeMessageThroughWindow s m))
                then 1 + repeats evs (snd (routeMessageThroughWindow s m)) else 0)
       \<and> (answered evs (snd (routeMessageThroughWindow s m))
           \<and> repeats evs (snd (routeMessageThroughWindow s m)) = 0 \<longrightarrow>
            deliveries m (run evs (snd (routeMessageThroughWindow s m))) = deliveries m s + 1)
       \<and> (namespace_set t \<and> c < length (channels t) \<and> retry (channels t ! c) \<longrightarrow>
            deliver (Timeout c) t =
              t\<lparr>channels := (channels t)[c := (channels t ! c)\<lparr>retry := False, onmessage := False\<rparr>]
                              @ [\<lparr>msg = msg (channels t ! c), retry = True, onmessage = True\<rparr>],
                posted := posted t @
                  [\<lparr>cmd = ''__crx_bridge_verify_listening'', scope = namespace t,
                    context_wm = ''window'', payload = None, ports = [length (channels t)]\<rparr>]\<rparr>)"
proof (intro conjI impI)
  note start = waiting_start [OF assms(1), of m]
  show "fst (routeMessageThroughWindow s m) = Done"
    by (simp add: start(1))
  have "deliveries m (run evs (snd (routeMessageThroughWindow s m)))
      = deliveries m (snd (routeMessageThroughWindow s m))
        + (if answered evs (snd (routeMessageThroughWindow s m))
           then 1 + repeats evs (snd (routeMessageThroughWindow s m)) else 0)"
    using start(2) assms(2) by (rule waiting_run)
  then show count: "deliveries m (run evs (snd (routeMessageThroughWindow s m)))
           = deliveries m s
             + (if answered evs (snd (routeMessageThroughWindow s m))
                then 1 + repeats evs (snd (routeMessageThroughWindow s m)) else 0)"
    by (simp only: start(3))
  show "deliveries m (run evs (snd (routeMessageThroughWindow s m))) = deliveries m s + 1"
    if "answered evs (snd (routeMessageThroughWindow s m))
        \<and> repeats evs (snd (routeMessageThroughWindow s m)) = 0"
    using that by (simp only: count) simp
next
  assume "namespace_set t \<and> c < length (channels t) \<and> retry (channels t ! c)"
  then show "deliver (Timeout c) t =
              t\<lparr>channels := (channels t)[c := (channels t ! c)\<lparr>retry := False, onmessage := False\<rparr>]
                              @ [\<lparr>msg = msg (channels t ! c), retry = True, onmessage = True\<rparr>],
                posted := posted t @
                  [\<lparr>cmd = ''__crx_bridge_verify_listening'', scope = namespace t,
                    context_wm = ''window'', payload = None, ports = [length (channels t)]\<rparr>]\<rparr>"
    using timeout_retries [of t c] by (simp add: currentContext_def del: deliver.simps)
qed

lemma example_start:
  "snd (routeMessageThroughWindow example_bridge (example_reply ''tx-7'' JUndefined)) =
     example_bridge
       \<lparr>channels := [\<lparr>msg = example_reply ''tx-7'' JUndefined, retry = True, onmessage = True\<rparr>],
        posted := [\<lparr>cmd = ''__crx_bridge_verify_listening'', scope = JStr ''app'',
                    context_wm = ''window'', payload = None, ports = [0]\<rparr>]\<rparr>"
  by (simp add: routeMessageThroughWindow_def ensureNamespaceSet_def example_bridge_def
      currentContext_def)

text \<open>
  The first attempt times out, its acknowledgment then arrives twice, and the second
  attempt is acknowledged in time: one broadcast.
\<close>

theorem handshake_delivers_once_witness:
  "namespace_set example_bridge
   \<and> answered [Timeout 0, PortMessage 0, PortMessage 0, PortMessage 1]
        (snd (routeMessageThroughWindow example_bridge (example_reply ''tx-7'' JUndefined)))
   \<and> repeats [Timeout 0, PortMessage 0, PortMessage 0, PortMessage 1]
        (snd (routeMessageThroughWindow example_bridge (example_reply ''tx-7'' JUndefined))) = 0
   \<and> deliveries (example_reply ''tx-7'' JUndefined)
        (run [Timeout 0, PortMessage 0, PortMessage 0, PortMessage 1]
           (snd (routeMessageThroughWindow example_bridge (example_reply ''tx-7'' JUndefined)))) = 1"
proof -
  let ?m = "example_reply ''tx-7'' JUndefined"
  let ?evs = "[Timeout 0, PortMessage 0, PortMessage 0, PortMessage 1]"
  have a: "namespace_set example_bridge"
    by (simp add: namespace_set_def example_bridge_def)
  have b: "\<forall>e \<in> set ?evs. length (channels example_bridge) \<le> channel_of e"
    by (simp add: example_bridge_def)
  have d: "answered ?evs (snd (routeMessageThroughWindow example_bridge ?m))"
    unfolding example_start
    by (simp add: retry_callback_def routeMessageThroughWindow_def ensureNamespaceSet_def
        example_bridge_def)
  have r: "repeats ?evs (snd (routeMessageThroughWindow example_bridge ?m)) = 0"
    unfolding example_start
    by (simp add: retry_callback_def routeMessageThroughWindow_def ensureNamespaceSet_def
        example_bridge_def)
  have z: "deliveries ?m example_bridge = 0"
    by (simp add: deliveries_def example_bridge_def)
  from handshake_delivers_once [OF a b, of ?m] d r z
  have "deliveries ?m (run ?evs (snd (routeMessageThroughWindow example_bridge ?m))) = 1"
    by simp
  with a d r show ?thesis by blast
qed

text \<open>
  Without the condition on the acknowledged channel the count can be two: when a channel
  is acknowledged twice before its timeout (two listeners answer the same probe), the
  callback, which stays attached after the first acknowledgment, broadcasts the envelope
  again.
\<close>

theorem double_ack_delivers_twice:
  "namespace_set example_bridge
   \<and> answered [PortMessage 0, PortMessage 0]
        (snd (routeMessageThroughWindow example_bridge (example_reply ''tx-7'' JUndefined)))
   \<and> deliveries (example_reply ''tx-7'' JUndefined)
        (run [PortMessage 0, PortMessage 0]
           (snd (routeMessageThroughWindow example_bridge (example_reply ''tx-7'' JUndefined)))) = 2"
  unfolding example_start
  by (simp add: namespace_set_def run_def deliveries_def onmessage_callback_def example_bridge_def)

end
